theory Spec2Isabelle
  imports Main "HOL-Library.Word" "HOL-Library.AList"
begin

unbundle bit_operations_syntax

section \<open>Python strings and the library functions the script calls\<close>

text \<open>
  A Python \<open>str\<close> is modelled as a \<open>string\<close>; each \<open>char\<close> stands for one code point
  below 256 (the Latin-1 range), so \<open>length\<close> counts code points as \<open>len\<close> does.
  The functions of this section model the standard-library calls of
  \<^verbatim>\<open>migrate_framer.py\<close>: \<open>str.startswith\<close>, the \<open>in\<close> operator, \<open>str.replace\<close>,
  \<open>str.lower\<close>, \<open>re.findall\<close> and \<open>re.sub\<close> with the two patterns of the script,
  \<open>html.unescape\<close>, \<open>urllib.parse.urlparse(url).path\<close>, \<open>os.path.splitext\<close>,
  \<open>os.path.basename\<close>, \<open>os.path.relpath\<close> and \<open>hashlib.md5\<close>.
\<close>

fun startswith :: "string \<Rightarrow> string \<Rightarrow> bool" where
  "startswith s [] = True"
| "startswith [] (p # ps) = False"
| "startswith (c # cs) (p # ps) = (c = p \<and> startswith cs ps)"

text \<open>\<open>sub in s\<close> on strings.\<close>

fun contains :: "string \<Rightarrow> string \<Rightarrow> bool" where
  "contains sub [] = (sub = [])"
| "contains sub (c # cs) = (startswith (c # cs) sub \<or> contains sub cs)"

text \<open>
  \<open>s.replace(old, new)\<close>: the occurrences of \<open>old\<close> are found from left to right, an
  occurrence starts where the previous one ended, and the text put in is not scanned
  again. An empty \<open>old\<close> puts \<open>new\<close> before every character and at the end.
\<close>

fun replace_scan :: "string \<Rightarrow> string \<Rightarrow> string \<Rightarrow> string" where
  "replace_scan old new [] = []"
| "replace_scan old new (c # cs) =
     (if startswith (c # cs) old
      then new @ replace_scan old new (drop (length old - 1) cs)
      else c # replace_scan old new cs)"

definition str_replace :: "string \<Rightarrow> string \<Rightarrow> string \<Rightarrow> string" where
  "str_replace old new s =
     (if old = [] then new @ concat (map (\<lambda>c. c # new) s) else replace_scan old new s)"

text \<open>\<open>str.lower\<close> on the code points below 256.\<close>

definition lower_char :: "char \<Rightarrow> char" where
  "lower_char c =
     (let n = of_char c :: nat
      in if (65 \<le> n \<and> n \<le> 90) \<or> (192 \<le> n \<and> n \<le> 222 \<and> n \<noteq> 215)
         then char_of (n + 32) else c)"

definition lower :: "string \<Rightarrow> string" where
  "lower s = map lower_char s"

subsection \<open>The URL pattern\<close>

text \<open>
  \<^verbatim>\<open>framer_url_pattern = r'https://framerusercontent\.com/[^"\'\)\s]+'\<close>.
  \<open>\s\<close> on a \<open>str\<close> pattern is Unicode white space; below 256 these are the code
  points listed in \<open>is_space\<close>.
\<close>

definition url_prefix :: string where
  "url_prefix = ''https://framerusercontent.com/''"

definition is_space :: "char \<Rightarrow> bool" where
  "is_space c = (of_char c \<in> set [9, 10, 11, 12, 13, 28, 29, 30, 31, 32, 133, 160 :: nat])"

definition url_char :: "char \<Rightarrow> bool" where
  "url_char c = (\<not> (c = CHR 0x22 \<or> c = CHR 0x27 \<or> c = CHR '')'' \<or> is_space c))"

text \<open>
  \<open>re.findall(framer_url_pattern, content)\<close>: at each position the pattern matches when the
  prefix is there and at least one character of the class follows; the match takes the
  longest run of class characters, and the search goes on behind the match.
\<close>

fun findall :: "string \<Rightarrow> string list" where
  "findall [] = []"
| "findall (c # cs) =
     (let run = takeWhile url_char (drop (length url_prefix) (c # cs))
      in if startswith (c # cs) url_prefix \<and> run \<noteq> []
         then (url_prefix @ run) # findall (drop (length url_prefix + length run - 1) cs)
         else findall cs)"

subsection \<open>\<open>html.unescape\<close>\<close>

text \<open>
  \<^verbatim>\<open>
  _charref = re.compile(r'&(#[0-9]+;?|#[xX][0-9a-fA-F]+;?|[^\t\n\f <&#;]{1,32};?)')
  def unescape(s):
      if '&' not in s:
          return s
      return _charref.sub(_replace_charref, s)
  \<close>
  The table of named references \<open>html.entities.html5\<close> and the tables that turn the
  number of a numeric reference into its replacement text are data of the standard
  library; they are the parameters \<open>html5\<close> and \<open>charref_chr\<close> of the environment
  below. The scan and the longest-prefix rule of \<open>_replace_charref\<close> are modelled here.
\<close>

definition is_digit :: "char \<Rightarrow> bool" where
  "is_digit c = (let n = of_char c :: nat in 48 \<le> n \<and> n \<le> 57)"

definition is_xdigit :: "char \<Rightarrow> bool" where
  "is_xdigit c =
     (let n = of_char c :: nat
      in (48 \<le> n \<and> n \<le> 57) \<or> (65 \<le> n \<and> n \<le> 70) \<or> (97 \<le> n \<and> n \<le> 102))"

definition is_name_char :: "char \<Rightarrow> bool" where
  "is_name_char c =
     (\<not> (c = CHR 0x09 \<or> c = CHR 0x0A \<or> c = CHR 0x0C \<or> c = CHR '' '' \<or> c = CHR ''<''
         \<or> c = CHR ''&'' \<or> c = CHR ''#'' \<or> c = CHR '';''))"

text \<open>The optional \<open>;\<close> that ends each alternative of the pattern.\<close>

definition opt_semicolon :: "string \<Rightarrow> string" where
  "opt_semicolon s = (case s of [] \<Rightarrow> [] | c # _ \<Rightarrow> if c = CHR '';'' then [c] else [])"

text \<open>
  \<open>match_charref s\<close> is group 1 of \<open>_charref\<close> matched right behind an \<open>&\<close>, where \<open>s\<close> is
  the text behind the \<open>&\<close>; \<open>None\<close> when the pattern does not match there.
\<close>

definition match_charref :: "string \<Rightarrow> string option" where
  "match_charref s =
     (case s of
        [] \<Rightarrow> None
      | c # cs \<Rightarrow>
          if c = CHR ''#'' then
            (let ds = takeWhile is_digit cs in
             if ds \<noteq> [] then Some (c # ds @ opt_semicolon (drop (length ds) cs))
             else case cs of
               [] \<Rightarrow> None
             | x # xs \<Rightarrow>
                 (let hs = takeWhile is_xdigit xs in
                  if (x = CHR ''x'' \<or> x = CHR ''X'') \<and> hs \<noteq> []
                  then Some (c # x # hs @ opt_semicolon (drop (length hs) xs))
                  else None))
          else
            (let ns = take 32 (takeWhile is_name_char s) in
             if ns \<noteq> [] then Some (ns @ opt_semicolon (drop (length ns) s)) else None))"

text \<open>\<open>int(digits, base)\<close> for a string of digits of that base.\<close>

definition digit_val :: "char \<Rightarrow> nat" where
  "digit_val c =
     (let n = of_char c :: nat
      in if n \<le> 57 then n - 48 else if n \<le> 70 then n - 55 else n - 87)"

definition int_of_digits :: "nat \<Rightarrow> string \<Rightarrow> nat" where
  "int_of_digits base ds = fold (\<lambda>c acc. acc * base + digit_val c) ds 0"

definition rstrip_semicolon :: "string \<Rightarrow> string" where
  "rstrip_semicolon s = rev (dropWhile (\<lambda>c. c = CHR '';'') (rev s))"

text \<open>
  The loop \<^verbatim>\<open>for x in range(len(s)-1, 1, -1): if s[:x] in _html5: return _html5[s[:x]] + s[x:]\<close>
  with its \<open>else\<close> branch \<^verbatim>\<open>return '&' + s\<close>.
\<close>

fun longest_name :: "(string \<rightharpoonup> string) \<Rightarrow> string \<Rightarrow> nat \<Rightarrow> string" where
  "longest_name tbl s x =
     (if x \<le> 1 then CHR ''&'' # s
      else case tbl (take x s) of
             Some r \<Rightarrow> r @ drop x s
           | None \<Rightarrow> longest_name tbl s (x - 1))"

definition replace_charref :: "(string \<rightharpoonup> string) \<Rightarrow> (nat \<Rightarrow> string) \<Rightarrow> string \<Rightarrow> string" where
  "replace_charref tbl chr s =
     (if startswith s ''#'' then
        (if startswith (drop 1 s) ''x'' \<or> startswith (drop 1 s) ''X''
         then chr (int_of_digits 16 (rstrip_semicolon (drop 2 s)))
         else chr (int_of_digits 10 (rstrip_semicolon (drop 1 s))))
      else case tbl s of
             Some r \<Rightarrow> r
           | None \<Rightarrow> longest_name tbl s (length s - 1))"

fun charref_sub :: "(string \<rightharpoonup> string) \<Rightarrow> (nat \<Rightarrow> string) \<Rightarrow> string \<Rightarrow> string" where
  "charref_sub tbl chr [] = []"
| "charref_sub tbl chr (c # cs) =
     (if c = CHR ''&'' then
        (case match_charref cs of
           None \<Rightarrow> c # charref_sub tbl chr cs
         | Some g \<Rightarrow> replace_charref tbl chr g @ charref_sub tbl chr (drop (length g) cs))
      else c # charref_sub tbl chr cs)"

definition unescape :: "(string \<rightharpoonup> string) \<Rightarrow> (nat \<Rightarrow> string) \<Rightarrow> string \<Rightarrow> string" where
  "unescape tbl chr s = (if CHR ''&'' \<notin> set s then s else charref_sub tbl chr s)"

subsection \<open>\<open>urllib.parse.urlparse(url).path\<close>, \<open>os.path.splitext\<close>, \<open>os.path.basename\<close>\<close>

text \<open>
  \<open>urlsplit\<close> strips leading control characters and spaces, deletes tab, carriage return
  and line feed, splits off a scheme (a letter followed by letters, digits, \<open>+\<close>, \<open>-\<close>,
  \<open>.\<close> up to the first colon), a network location behind \<open>//\<close> up to the first of \<open>/?#\<close>,
  the fragment behind the first \<open>#\<close> and the query behind the first \<open>?\<close>; \<open>urlparse\<close> then
  cuts the parameters of the last path segment at its first \<open>;\<close> for the schemes that have
  parameters. The \<open>ValueError\<close> of \<open>urlsplit\<close> for a bracketed network location does not
  arise for the host of \<open>url_prefix\<close> and is not modelled.
\<close>

definition is_c0_or_space :: "char \<Rightarrow> bool" where
  "is_c0_or_space c = ((of_char c :: nat) \<le> 32)"

definition is_alpha :: "char \<Rightarrow> bool" where
  "is_alpha c = (let n = of_char c :: nat in (65 \<le> n \<and> n \<le> 90) \<or> (97 \<le> n \<and> n \<le> 122))"

definition is_scheme_char :: "char \<Rightarrow> bool" where
  "is_scheme_char c = (is_alpha c \<or> is_digit c \<or> c = CHR ''+'' \<or> c = CHR ''-'' \<or> c = CHR ''.'')"

definition uses_params :: "string list" where
  "uses_params = ['''', ''ftp'', ''hdl'', ''prospero'', ''http'', ''imap'', ''https'', ''shttp'',
                  ''rtsp'', ''rtspu'', ''sip'', ''sips'', ''mms'', ''sftp'', ''tel'']"

definition split_scheme :: "string \<Rightarrow> string \<times> string" where
  "split_scheme u =
     (let pre = takeWhile (\<lambda>c. c \<noteq> CHR '':'') u
      in if CHR '':'' \<in> set u \<and> pre \<noteq> [] \<and> is_alpha (hd pre) \<and> list_all is_scheme_char pre
         then (lower pre, drop (length pre + 1) u)
         else ('''', u))"

text \<open>\<open>os.path.basename(p)\<close> is \<open>p[p.rfind('/') + 1:]\<close>.\<close>

definition basename :: "string \<Rightarrow> string" where
  "basename p = rev (takeWhile (\<lambda>c. c \<noteq> CHR ''/'') (rev p))"

definition splitparams :: "string \<Rightarrow> string" where
  "splitparams u =
     (if CHR ''/'' \<in> set u then
        (let k = length u - length (basename u) - 1; tl = drop k u
         in if CHR '';'' \<in> set tl then take k u @ takeWhile (\<lambda>c. c \<noteq> CHR '';'') tl else u)
      else takeWhile (\<lambda>c. c \<noteq> CHR '';'') u)"

definition urlparse_path :: "string \<Rightarrow> string" where
  "urlparse_path url =
     (let u = filter (\<lambda>c. \<not> (c = CHR 0x09 \<or> c = CHR 0x0D \<or> c = CHR 0x0A))
                (dropWhile is_c0_or_space url);
          (scheme, r) = split_scheme u;
          r1 = (if startswith r ''//''
                then dropWhile (\<lambda>c. \<not> (c = CHR ''/'' \<or> c = CHR ''?'' \<or> c = CHR ''#'')) (drop 2 r)
                else r);
          r2 = takeWhile (\<lambda>c. c \<noteq> CHR ''#'') r1;
          r3 = takeWhile (\<lambda>c. c \<noteq> CHR ''?'') r2
      in if scheme \<in> set uses_params \<and> CHR '';'' \<in> set r3 then splitparams r3 else r3)"

text \<open>
  \<open>os.path.splitext(p)[1]\<close>: the text from the last dot of the basename on, when some
  character that is not a dot stands before that dot in the basename; empty otherwise.
\<close>

definition splitext_ext :: "string \<Rightarrow> string" where
  "splitext_ext p =
     (let b = basename p;
          e = rev (takeWhile (\<lambda>c. c \<noteq> CHR ''.'') (rev b))
      in if CHR ''.'' \<in> set b \<and> list_ex (\<lambda>c. c \<noteq> CHR ''.'') (take (length b - length e - 1) b)
         then CHR ''.'' # e else [])"

text \<open>
  \<open>re.sub(r'[^a-zA-Z0-9._-]', '', name)\<close>: every character outside the class is a match and
  is replaced by the empty string.
\<close>

definition in_name_class :: "char \<Rightarrow> bool" where
  "in_name_class c =
     (let n = of_char c :: nat
      in (97 \<le> n \<and> n \<le> 122) \<or> (65 \<le> n \<and> n \<le> 90) \<or> (48 \<le> n \<and> n \<le> 57)
         \<or> c = CHR ''.'' \<or> c = CHR ''_'' \<or> c = CHR ''-'')"

fun re_sub_name :: "string \<Rightarrow> string" where
  "re_sub_name [] = []"
| "re_sub_name (c # cs) = (if in_name_class c then c # re_sub_name cs else re_sub_name cs)"

subsection \<open>\<open>hashlib.md5\<close>\<close>

type_synonym byte = "8 word"
type_synonym u32 = "32 word"

text \<open>\<open>url.encode('utf-8')\<close> for code points below 256.\<close>

definition utf8 :: "string \<Rightarrow> byte list" where
  "utf8 s = concat (map (\<lambda>c. let n = of_char c :: nat in
       if n < 128 then [of_nat n] else [of_nat (192 + n div 64), of_nat (128 + n mod 64)]) s)"

definition md5_K :: "u32 list" where
  "md5_K = [
    0xd76aa478, 0xe8c7b756, 0x242070db, 0xc1bdceee, 0xf57c0faf, 0x4787c62a, 0xa8304613, 0xfd469501,
    0x698098d8, 0x8b44f7af, 0xffff5bb1, 0x895cd7be, 0x6b901122, 0xfd987193, 0xa679438e, 0x49b40821,
    0xf61e2562, 0xc040b340, 0x265e5a51, 0xe9b6c7aa, 0xd62f105d, 0x02441453, 0xd8a1e681, 0xe7d3fbc8,
    0x21e1cde6, 0xc33707d6, 0xf4d50d87, 0x455a14ed, 0xa9e3e905, 0xfcefa3f8, 0x676f02d9, 0x8d2a4c8a,
    0xfffa3942, 0x8771f681, 0x6d9d6122, 0xfde5380c, 0xa4beea44, 0x4bdecfa9, 0xf6bb4b60, 0xbebfbc70,
    0x289b7ec6, 0xeaa127fa, 0xd4ef3085, 0x04881d05, 0xd9d4d039, 0xe6db99e5, 0x1fa27cf8, 0xc4ac5665,
    0xf4292244, 0x432aff97, 0xab9423a7, 0xfc93a039, 0x655b59c3, 0x8f0ccc92, 0xffeff47d, 0x85845dd1,
    0x6fa87e4f, 0xfe2ce6e0, 0xa3014314, 0x4e0811a1, 0xf7537e82, 0xbd3af235, 0x2ad7d2bb, 0xeb86d391]"

definition md5_s :: "nat list" where
  "md5_s = [7, 12, 17, 22, 7, 12, 17, 22, 7, 12, 17, 22, 7, 12, 17, 22,
            5, 9, 14, 20, 5, 9, 14, 20, 5, 9, 14, 20, 5, 9, 14, 20,
            4, 11, 16, 23, 4, 11, 16, 23, 4, 11, 16, 23, 4, 11, 16, 23,
            6, 10, 15, 21, 6, 10, 15, 21, 6, 10, 15, 21, 6, 10, 15, 21]"

definition rotl32 :: "u32 \<Rightarrow> nat \<Rightarrow> u32" where
  "rotl32 x n = push_bit n x OR drop_bit (32 - n) x"

definition md5_F :: "nat \<Rightarrow> u32 \<Rightarrow> u32 \<Rightarrow> u32 \<Rightarrow> u32" where
  "md5_F i b c d =
     (if i < 16 then (b AND c) OR (NOT b AND d)
      else if i < 32 then (d AND b) OR (NOT d AND c)
      else if i < 48 then b XOR c XOR d
      else c XOR (b OR NOT d))"

definition md5_g :: "nat \<Rightarrow> nat" where
  "md5_g i =
     (if i < 16 then i
      else if i < 32 then (5 * i + 1) mod 16
      else if i < 48 then (3 * i + 5) mod 16
      else (7 * i) mod 16)"

fun md5_step :: "u32 list \<Rightarrow> nat \<Rightarrow> u32 \<times> u32 \<times> u32 \<times> u32 \<Rightarrow> u32 \<times> u32 \<times> u32 \<times> u32" where
  "md5_step m i (a, b, c, d) =
     (let f = md5_F i b c d + a + md5_K ! i + m ! md5_g i
      in (d, b + rotl32 f (md5_s ! i), b, c))"

text \<open>A little-endian group of bytes as one word, and the sixteen words of a block.\<close>

fun le32 :: "byte list \<Rightarrow> u32" where
  "le32 [] = 0"
| "le32 (x # xs) = ucast x OR push_bit 8 (le32 xs)"

fun words_of :: "nat \<Rightarrow> byte list \<Rightarrow> u32 list" where
  "words_of 0 bs = []"
| "words_of (Suc n) bs = le32 (take 4 bs) # words_of n (drop 4 bs)"

fun md5_block :: "u32 \<times> u32 \<times> u32 \<times> u32 \<Rightarrow> byte list \<Rightarrow> u32 \<times> u32 \<times> u32 \<times> u32" where
  "md5_block (a0, b0, c0, d0) blk =
     (case fold (md5_step (words_of 16 blk)) [0..<64] (a0, b0, c0, d0) of
        (a, b, c, d) \<Rightarrow> (a0 + a, b0 + b, c0 + c, d0 + d))"

fun md5_blocks :: "nat \<Rightarrow> u32 \<times> u32 \<times> u32 \<times> u32 \<Rightarrow> byte list \<Rightarrow> u32 \<times> u32 \<times> u32 \<times> u32" where
  "md5_blocks 0 h bs = h"
| "md5_blocks (Suc n) h bs = md5_blocks n (md5_block h (take 64 bs)) (drop 64 bs)"

definition u64_bytes :: "64 word \<Rightarrow> byte list" where
  "u64_bytes w = map (\<lambda>i. ucast (drop_bit (8 * i) w)) [0..<8]"

definition u32_bytes :: "u32 \<Rightarrow> byte list" where
  "u32_bytes w = map (\<lambda>i. ucast (drop_bit (8 * i) w)) [0..<4]"

text \<open>
  Padding: the byte \<open>0x80\<close>, zero bytes up to 56 modulo 64, then the length of the message
  in bits as a little-endian 64-bit word.
\<close>

definition md5_pad :: "byte list \<Rightarrow> byte list" where
  "md5_pad bs = bs @ [0x80] @ replicate ((55 + 64 - length bs mod 64) mod 64) 0
                   @ u64_bytes (of_nat (8 * length bs))"

definition md5 :: "byte list \<Rightarrow> byte list" where
  "md5 bs =
     (let p = md5_pad bs in
      case md5_blocks (length p div 64) (0x67452301, 0xefcdab89, 0x98badcfe, 0x10325476) p of
        (a, b, c, d) \<Rightarrow> u32_bytes a @ u32_bytes b @ u32_bytes c @ u32_bytes d)"

definition hex_digit :: "nat \<Rightarrow> char" where
  "hex_digit n = ''0123456789abcdef'' ! (n mod 16)"

definition hexdigest :: "byte list \<Rightarrow> string" where
  "hexdigest bs = concat (map (\<lambda>b. [hex_digit (unat b div 16), hex_digit (unat b mod 16)]) bs)"

section \<open>Configuration and naming\<close>

text \<open>
  A path is the list of its components, relative to the working directory, as the
  \<open>Path\<close> objects of the script are. \<open>d / name\<close> on \<open>Path\<close> objects drops a component that
  is empty or a single dot and keeps \<open>..\<close>.
\<close>

type_synonym path = "string list"

definition ASSETS_DIR :: path where "ASSETS_DIR = [''assets'']"
definition IMAGES_DIR :: path where "IMAGES_DIR = ASSETS_DIR @ [''images'']"
definition FONTS_DIR :: path where "FONTS_DIR = ASSETS_DIR @ [''fonts'']"
definition OTHERS_DIR :: path where "OTHERS_DIR = ASSETS_DIR @ [''others'']"

definition joinpath :: "path \<Rightarrow> string \<Rightarrow> path" where
  "joinpath d name = (if name = [] \<or> name = ''.'' then d else d @ [name])"

definition get_extension :: "string \<Rightarrow> string" where
  "get_extension url =
     (let path = urlparse_path url;
          ext = lower (splitext_ext path)
      in if ext = [] then [] else ext)"

definition get_target_dir :: "string \<Rightarrow> path" where
  "get_target_dir ext =
     (if ext \<in> set [''.png'', ''.jpg'', ''.jpeg'', ''.gif'', ''.webp'', ''.svg'', ''.ico''] then IMAGES_DIR
      else if ext \<in> set [''.woff'', ''.woff2'', ''.ttf'', ''.otf'', ''.eot''] then FONTS_DIR
      else OTHERS_DIR)"

text \<open>Lines 43 to 55 of \<open>download_file\<close>: the hash of the URL and the file name.\<close>

definition url_hash :: "string \<Rightarrow> string" where
  "url_hash url = take 12 (hexdigest (md5 (utf8 url)))"

definition local_filename :: "string \<Rightarrow> string" where
  "local_filename url =
     (let ext = get_extension url;
          original_name = basename (urlparse_path url);
          original_name = re_sub_name original_name
      in if original_name = [] \<or> length original_name > 50
         then url_hash url @ ext
         else original_name)"

section \<open>The world the script runs in\<close>

text \<open>
  The content of a file is seen through what reading it as UTF-8 text gives: the text, or
  a \<open>UnicodeDecodeError\<close>. A node of the disk is a directory or a file with its write
  permission. The disk lists the nodes below the working directory in the order in which
  a directory scan yields them; a path is looked up with its \<open>..\<close> components resolved,
  and the working directory itself is the empty path.
\<close>

datatype content = Text string | Undecodable

datatype node = Dir | File bool content

type_synonym disk = "(path \<times> node) list"

datatype error = FileNotFoundError | IsADirectoryError | PermissionError | FileExistsError

text \<open>\<open>Path.resolve\<close> on a disk without symbolic links, relative to the working directory.\<close>

definition resolve :: "path \<Rightarrow> path" where
  "resolve p = fold (\<lambda>c acc. if c = ''..'' then butlast acc else acc @ [c]) p []"

definition node_at :: "disk \<Rightarrow> path \<Rightarrow> node option" where
  "node_at d p = (let q = resolve p in if q = [] then Some Dir else map_of d q)"

definition path_exists :: "disk \<Rightarrow> path \<Rightarrow> bool" where
  "path_exists d p = (node_at d p \<noteq> None)"

text \<open>
  \<open>open(p, 'r')\<close> followed by \<open>read\<close>, and \<open>open(p, 'w')\<close> or \<open>open(p, 'wb')\<close>, which creates
  the file or empties it and gives the place that the write fills.
\<close>

definition open_read :: "disk \<Rightarrow> path \<Rightarrow> error + content" where
  "open_read d p =
     (case node_at d p of
        None \<Rightarrow> Inl FileNotFoundError
      | Some Dir \<Rightarrow> Inl IsADirectoryError
      | Some (File w c) \<Rightarrow> Inr c)"

definition open_write :: "disk \<Rightarrow> path \<Rightarrow> error + path" where
  "open_write d p =
     (case node_at d p of
        Some Dir \<Rightarrow> Inl IsADirectoryError
      | Some (File w c) \<Rightarrow> if w then Inr (resolve p) else Inl PermissionError
      | None \<Rightarrow> if node_at d (butlast (resolve p)) = Some Dir then Inr (resolve p)
                else Inl FileNotFoundError)"

definition put_file :: "path \<Rightarrow> content \<Rightarrow> disk \<Rightarrow> disk" where
  "put_file k c d = AList.update k (File True c) d"

text \<open>
  The answer of the network to a request: \<open>urlopen\<close> raises (no connection, a response
  that is not a success), \<open>urlopen\<close> returns and \<open>response.read()\<close> raises, or the body
  arrives.
\<close>

datatype response = Unreachable | Truncated | Body content

text \<open>
  What the run does not decide: the tables of \<open>html.unescape\<close>, the order in which a
  \<open>set\<close> of strings is iterated (a key for each set built from a list of matches), the
  network, and the drive on which a resolved path lies (\<open>os.path.relpath\<close> raises
  \<open>ValueError\<close> for two paths on different drives).
\<close>

record env =
  html5 :: "string \<rightharpoonup> string"
  charref_chr :: "nat \<Rightarrow> string"
  set_order :: "string list \<Rightarrow> string \<Rightarrow> nat"
  urlopen :: "string \<Rightarrow> response"
  drive :: "path \<Rightarrow> nat"

text \<open>The lines the script prints.\<close>

datatype event =
    Downloading string path
  | SkippingExists path
  | FailedToDownload string
  | Processing path
  | WarningNotUTF8 path
  | FoundMatches nat path
  | ErrorRelativePath string
  | Updated path
  | NoChanges path
  | MigrationComplete

text \<open>
  The state of a run: the dictionary \<open>url_to_local_path\<close>, the disk, and the console.
  \<open>calls\<close> records the argument of every call of \<open>download_file\<close>; the script does not
  have it, it is there so that theorems can speak about the calls.
\<close>

record state =
  url_to_local_path :: "string \<rightharpoonup> path"
  disk :: disk
  console :: "event list"
  calls :: "string list"

definition initial_state :: "disk \<Rightarrow> state" where
  "initial_state d = \<lparr>url_to_local_path = Map.empty, disk = d, console = [], calls = []\<rparr>"

definition say :: "event \<Rightarrow> state \<Rightarrow> state" where
  "say e s = s\<lparr>console := console s @ [e]\<rparr>"

subsection \<open>Creating the directories (lines 15 and 16)\<close>

definition mkdir :: "path \<Rightarrow> disk \<Rightarrow> error + disk" where
  "mkdir p d =
     (case node_at d p of
        Some Dir \<Rightarrow> Inr d
      | Some (File w c) \<Rightarrow> Inl FileExistsError
      | None \<Rightarrow> Inr (d @ [(resolve p, Dir)]))"

fun mkdirs :: "path list \<Rightarrow> disk \<Rightarrow> error + disk" where
  "mkdirs [] d = Inr d"
| "mkdirs (p # ps) d = (case mkdir p d of Inl e \<Rightarrow> Inl e | Inr d' \<Rightarrow> mkdirs ps d')"

text \<open>\<open>directory.mkdir(parents=True, exist_ok=True)\<close> makes \<open>assets\<close> before each of the three.\<close>

definition create_directories :: "disk \<Rightarrow> error + disk" where
  "create_directories d =
     mkdirs [ASSETS_DIR, IMAGES_DIR, ASSETS_DIR, FONTS_DIR, ASSETS_DIR, OTHERS_DIR] d"

section \<open>\<open>download_file\<close>\<close>

text \<open>
  Lines 69 to 78: the request, then the file is opened for writing, then the body is read
  and written. The result says whether the block ended without an exception.
\<close>

definition fetch_to :: "env \<Rightarrow> string \<Rightarrow> path \<Rightarrow> state \<Rightarrow> bool \<times> state" where
  "fetch_to env url local_path s =
     (case urlopen env url of
        Unreachable \<Rightarrow> (False, s)
      | Truncated \<Rightarrow>
          (case open_write (disk s) local_path of
             Inl e \<Rightarrow> (False, s)
           | Inr k \<Rightarrow> (False, s\<lparr>disk := put_file k (Text []) (disk s)\<rparr>))
      | Body c \<Rightarrow>
          (case open_write (disk s) local_path of
             Inl e \<Rightarrow> (False, s)
           | Inr k \<Rightarrow> (True, s\<lparr>disk := put_file k c (disk s)\<rparr>)))"

definition download_file :: "env \<Rightarrow> string \<Rightarrow> state \<Rightarrow> path option \<times> state" where
  "download_file env url s0 =
     (let s = s0\<lparr>calls := calls s0 @ [url]\<rparr> in
      case url_to_local_path s url of
        Some p \<Rightarrow> (Some p, s)
      | None \<Rightarrow>
          (let ext = get_extension url;
               filename = local_filename url;
               target_dir = get_target_dir ext;
               local_path = joinpath target_dir filename
           in if \<not> path_exists (disk s) local_path then
                (case fetch_to env url local_path (say (Downloading url local_path) s) of
                   (True, s') \<Rightarrow>
                     (Some local_path,
                      s'\<lparr>url_to_local_path := (url_to_local_path s')(url \<mapsto> local_path)\<rparr>)
                 | (False, s') \<Rightarrow> (None, say (FailedToDownload url) s'))
              else
                (Some local_path,
                 (say (SkippingExists local_path) s)
                   \<lparr>url_to_local_path := (url_to_local_path s)(url \<mapsto> local_path)\<rparr>)))"

section \<open>\<open>process_file\<close> and \<open>main\<close>\<close>

text \<open>
  \<open>os.path.relpath(path, start)\<close> on two resolved paths below the working directory: one
  \<open>..\<close> for every component of \<open>start\<close> behind the common prefix, then the rest of \<open>path\<close>,
  joined by the separator, which line 137 turns into \<open>/\<close>; a single dot when nothing is
  left.
\<close>

fun common_len :: "path \<Rightarrow> path \<Rightarrow> nat" where
  "common_len (x # xs) (y # ys) = (if x = y then Suc (common_len xs ys) else 0)"
| "common_len xs ys = 0"

fun join_slash :: "string list \<Rightarrow> string" where
  "join_slash [] = []"
| "join_slash [x] = x"
| "join_slash (x # y # ys) = x @ ''/'' @ join_slash (y # ys)"

definition relpath :: "path \<Rightarrow> path \<Rightarrow> string" where
  "relpath p start =
     (let i = common_len start p;
          rel_list = replicate (length start - i) ''..'' @ drop i p
      in if rel_list = [] then ''.'' else join_slash rel_list)"

definition relative_url :: "env \<Rightarrow> path \<Rightarrow> path \<Rightarrow> string option" where
  "relative_url env local_path file_path =
     (let abs_file_path = resolve file_path;
          abs_asset_path = resolve local_path
      in if drive env abs_asset_path \<noteq> drive env (butlast abs_file_path) then None
         else Some (relpath abs_asset_path (butlast abs_file_path)))"

text \<open>\<open>set(xs)\<close> iterated, and \<open>sorted(matches, key=len, reverse=True)\<close>, which is stable.\<close>

definition py_set :: "env \<Rightarrow> string list \<Rightarrow> string list" where
  "py_set env xs = sort_key (set_order env xs) (remdups xs)"

definition sorted_by_len_desc :: "string list \<Rightarrow> string list" where
  "sorted_by_len_desc ms = sort_key (\<lambda>m. - int (length m)) ms"

text \<open>The body of the loop of lines 115 to 144, on the state and \<open>new_content\<close>.\<close>

definition rewrite_match :: "env \<Rightarrow> path \<Rightarrow> string \<Rightarrow> state \<times> string \<Rightarrow> state \<times> string" where
  "rewrite_match env file_path m st =
     (case st of (s, new_content) \<Rightarrow>
        (let url = unescape (html5 env) (charref_chr env) m in
         if contains ''searchIndex'' url then (s, new_content)
         else case download_file env url s of
                (None, s') \<Rightarrow> (s', new_content)
              | (Some local_path_obj, s') \<Rightarrow>
                  (case relative_url env local_path_obj file_path of
                     None \<Rightarrow> (say (ErrorRelativePath url) s', new_content)
                   | Some rel_path \<Rightarrow> (s', str_replace url rel_path new_content))))"

definition process_file :: "env \<Rightarrow> path \<Rightarrow> state \<Rightarrow> error option \<times> state" where
  "process_file env file_path s0 =
     (let s = say (Processing file_path) s0 in
      case open_read (disk s) file_path of
        Inl e \<Rightarrow> (Some e, s)
      | Inr Undecodable \<Rightarrow> (None, say (WarningNotUTF8 file_path) s)
      | Inr (Text content) \<Rightarrow>
          (let matches = py_set env (findall content);
               s1 = say (FoundMatches (length matches) file_path) s;
               sorted_matches = sorted_by_len_desc matches;
               (s2, new_content) = fold (rewrite_match env file_path) sorted_matches (s1, content)
           in if new_content \<noteq> content then
                (case open_write (disk s2) file_path of
                   Inl e \<Rightarrow> (Some e, s2)
                 | Inr k \<Rightarrow>
                     (None, say (Updated file_path) (s2\<lparr>disk := put_file k (Text new_content) (disk s2)\<rparr>)))
              else (None, say (NoChanges file_path) s2)))"

text \<open>
  \<open>root_dir.rglob('*.html')\<close>: every node below the working directory, file or directory,
  whose name ends in \<open>.html\<close>.
\<close>

definition endswith :: "string \<Rightarrow> string \<Rightarrow> bool" where
  "endswith s suffix = startswith (rev s) (rev suffix)"

definition rglob_html :: "disk \<Rightarrow> path list" where
  "rglob_html d = map fst (filter (\<lambda>(p, n). p \<noteq> [] \<and> endswith (last p) ''.html'') d)"

fun process_files :: "env \<Rightarrow> path list \<Rightarrow> state \<Rightarrow> error option \<times> state" where
  "process_files env [] s = (None, s)"
| "process_files env (f # fs) s =
     (case process_file env f s of
        (Some e, s') \<Rightarrow> (Some e, s')
      | (None, s') \<Rightarrow> process_files env fs s')"

definition main :: "env \<Rightarrow> state \<Rightarrow> error option \<times> state" where
  "main env s =
     (let html_files = rglob_html (disk s) in
      case process_files env html_files s of
        (Some e, s') \<Rightarrow> (Some e, s')
      | (None, s') \<Rightarrow> (None, say MigrationComplete s'))"

text \<open>One run of the script on a disk: the directories are made, then \<open>main\<close> runs.\<close>

definition run :: "env \<Rightarrow> disk \<Rightarrow> error option \<times> state" where
  "run env d =
     (case create_directories d of
        Inl e \<Rightarrow> (Some e, initial_state d)
      | Inr d' \<Rightarrow> main env (initial_state d'))"

section \<open>Notions used in the statements\<close>

text \<open>
  The digits of \<open>hexdigest\<close>.
\<close>

definition is_lower_hex :: "char \<Rightarrow> bool" where
  "is_lower_hex c = (c \<in> set ''0123456789abcdef'')"

text \<open>
  The file name as the specification words it: the basename of the URL's path with every
  character outside \<open>[A-Za-z0-9._-]\<close> removed; when that is empty or longer than 50
  characters, the identifier followed by the extension. It is compared with
  \<open>local_filename\<close>, which follows lines 46 to 55.
\<close>

definition spec_filename :: "string \<Rightarrow> string" where
  "spec_filename url =
     (let sanitized = filter (\<lambda>c. c \<in> set ''ABCDEFGHIJKLMNOPQRSTUVWXYZabcdefghijklmnopqrstuvwxyz0123456789._-'')
                        (basename (urlparse_path url))
      in if sanitized = [] \<or> 50 < length sanitized
         then url_hash url @ get_extension url
         else sanitized)"

text \<open>
  The value of \<open>local_path\<close> on line 58.
\<close>

definition local_path_of :: "string \<Rightarrow> path" where
  "local_path_of url = joinpath (get_target_dir (get_extension url)) (local_filename url)"

text \<open>
  A fetch of a URL shows on the console: line 67 prints right before the request of
  line 76. \<open>fetches url s\<close> counts the requests for \<open>url\<close> so far.
\<close>

definition is_fetch_of :: "string \<Rightarrow> event \<Rightarrow> bool" where
  "is_fetch_of url e = (case e of Downloading u p \<Rightarrow> u = url | _ \<Rightarrow> False)"

definition fetches :: "string \<Rightarrow> state \<Rightarrow> nat" where
  "fetches url s = length (filter (is_fetch_of url) (console s))"

text \<open>
  A sequence of calls of \<open>download_file\<close>, one after the other.
\<close>

definition downloads :: "env \<Rightarrow> string list \<Rightarrow> state \<Rightarrow> state" where
  "downloads env us s = fold (\<lambda>u s. snd (download_file env u s)) us s"

text \<open>
  No call of \<open>download_file\<close> and no request so far was for a URL that contains the
  marker of line 120.
\<close>

definition marker_free_event :: "event \<Rightarrow> bool" where
  "marker_free_event e = (case e of Downloading u p \<Rightarrow> \<not> contains ''searchIndex'' u | _ \<Rightarrow> True)"

definition marker_free :: "state \<Rightarrow> bool" where
  "marker_free s = (list_all (\<lambda>u. \<not> contains ''searchIndex'' u) (calls s)
                     \<and> list_all marker_free_event (console s))"





section \<open>Concrete environments and disks\<close>

text \<open>
  A network where every request succeeds with the same body, one where no request
  succeeds, one where every body is lost while it is read, one with one failure of each
  kind (and fonts on another drive), one that serves an HTML page, and one whose table of
  named references holds the entry \<open>times\<close> (the multiplication sign, code point 215)
  of \<open>html.entities.html5\<close> where the others hold the entry \<open>amp;\<close>.
\<close>

definition online_env :: env where
  "online_env = \<lparr>html5 = [''amp;'' \<mapsto> ''&''], charref_chr = (\<lambda>n. []),
                  set_order = (\<lambda>xs m. 0), urlopen = (\<lambda>u. Body (Text ''DATA'')),
                  drive = (\<lambda>p. 0)\<rparr>"

definition offline_env :: env where
  "offline_env = online_env\<lparr>urlopen := (\<lambda>u. Unreachable)\<rparr>"

definition truncating_env :: env where
  "truncating_env = online_env\<lparr>urlopen := (\<lambda>u. Truncated)\<rparr>"



definition entity_env :: env where
  "entity_env = online_env\<lparr>html5 := [''times'' \<mapsto> [CHR 0xD7]]\<rparr>"

text \<open>
  Disks: the three asset directories alone, and with documents beside them.
\<close>

definition asset_dirs :: disk where
  "asset_dirs = [([''assets''], Dir), ([''assets'', ''images''], Dir),
                 ([''assets'', ''fonts''], Dir), ([''assets'', ''others''], Dir)]"

definition plain_disk :: disk where
  "plain_disk = asset_dirs @ [([''about.html''], File False (Text ''<p>assets/images/x.png</p>''))]"

definition escaped_text :: string where
  "escaped_text = ''<img src=https://framerusercontent.com/a&amp;b.png >''"

definition escaped_disk :: disk where
  "escaped_disk = asset_dirs @ [([''index.html''], File True (Text escaped_text))]"

definition clobber_text :: string where
  "clobber_text = ''https://framerusercontent.com/a https://framerusercontent.com/a/searchIndex.json''"

definition clobber_disk :: disk where
  "clobber_disk = asset_dirs @ [([''index.html''], File True (Text clobber_text))]"

definition entity_text :: string where
  "entity_text = ''url(https://framerusercontent.com/&timesearchIndex.png)''"

definition entity_disk :: disk where
  "entity_disk = asset_dirs @ [([''index.html''], File True (Text entity_text))]"





section \<open>Lemmas\<close>

subsection \<open>The hash and the file name\<close>

lemma length_u32_bytes: "length (u32_bytes w) = 4"
  by (simp add: u32_bytes_def)

lemma length_md5: "length (md5 bs) = 16"
  by (simp add: md5_def Let_def length_u32_bytes split: prod.split)

lemma length_hexdigest: "length (hexdigest bs) = 2 * length bs"
  by (induction bs) (simp_all add: hexdigest_def)

lemma hex_digit_lower: "is_lower_hex (hex_digit n)"
proof -
  have "n mod 16 < length ''0123456789abcdef''" by simp
  then have "''0123456789abcdef'' ! (n mod 16) \<in> set ''0123456789abcdef''"
    by (rule nth_mem)
  then show ?thesis by (simp only: is_lower_hex_def hex_digit_def)
qed

lemma hexdigest_lower: "list_all is_lower_hex (hexdigest bs)"
  by (induction bs) (simp_all add: hexdigest_def hex_digit_lower)

lemma length_url_hash: "length (url_hash url) = 12"
  by (simp add: url_hash_def length_hexdigest length_md5)

lemma url_hash_lower: "list_all is_lower_hex (url_hash url)"
proof -
  have "set (take 12 (hexdigest (md5 (utf8 url)))) \<subseteq> set (hexdigest (md5 (utf8 url)))"
    by (rule set_take_subset)
  then show ?thesis
    using hexdigest_lower [of "md5 (utf8 url)"]
    by (auto simp: url_hash_def list_all_iff)
qed

lemma in_name_class_iff:
  "in_name_class c \<longleftrightarrow> c \<in> set ''ABCDEFGHIJKLMNOPQRSTUVWXYZabcdefghijklmnopqrstuvwxyz0123456789._-''"
  by (cases c) (simp add: in_name_class_def, blast?)

lemma re_sub_name_filter: "re_sub_name s = filter in_name_class s"
  by (induction s) simp_all

lemma local_filename_spec: "local_filename url = spec_filename url"
proof -
  have "in_name_class = (\<lambda>c. c \<in> set ''ABCDEFGHIJKLMNOPQRSTUVWXYZabcdefghijklmnopqrstuvwxyz0123456789._-'')"
    by (rule ext) (rule in_name_class_iff)
  then show ?thesis
    by (simp add: local_filename_def spec_filename_def re_sub_name_filter Let_def)
qed

subsection \<open>MD5 on the empty message and on two URLs\<close>

lemma md5_empty:
  "md5 [] = [0xd4, 0x1d, 0x8c, 0xd9, 0x8f, 0x00, 0xb2, 0x04,
             0xe9, 0x80, 0x09, 0x98, 0xec, 0xf8, 0x42, 0x7e]"
  by code_simp

lemma md5_empty_hexdigest: "hexdigest (md5 []) = ''d41d8cd98f00b204e9800998ecf8427e''"
  unfolding md5_empty by code_simp

lemma utf8_short_url:
  "utf8 ''https://framerusercontent.com/a/'' =
    [104, 116, 116, 112, 115, 58, 47, 47, 102, 114, 97, 109, 101, 114, 117, 115, 101,
     114, 99, 111, 110, 116, 101, 110, 116, 46, 99, 111, 109, 47, 97, 47]"
  by code_simp

lemma md5_short_url:
  "md5 [104, 116, 116, 112, 115, 58, 47, 47, 102, 114, 97, 109, 101, 114, 117, 115, 101,
     114, 99, 111, 110, 116, 101, 110, 116, 46, 99, 111, 109, 47, 97, 47] =
    [0x53, 0x28, 0xde, 0x45, 0x5, 0x53, 0x8b, 0x3e, 0x88, 0xa0, 0x8b, 0x62, 0x2c, 0x56,
     0x3d, 0x2d]"
  by code_simp

lemma url_hash_short_url: "url_hash ''https://framerusercontent.com/a/'' = ''5328de450553''"
  unfolding url_hash_def utf8_short_url md5_short_url by code_simp

lemma utf8_long_url:
  "utf8 ''https://framerusercontent.com/xxxxxxxxxxxxxxxxxxxxxxxxxxxxxxxxxxxxxxxxxxxxxxxxxxx.png'' =
    [104, 116, 116, 112, 115, 58, 47, 47, 102, 114, 97, 109, 101, 114, 117, 115, 101,
     114, 99, 111, 110, 116, 101, 110, 116, 46, 99, 111, 109, 47, 120, 120, 120, 120,
     120, 120, 120, 120, 120, 120, 120, 120, 120, 120, 120, 120, 120, 120, 120, 120,
     120, 120, 120, 120, 120, 120, 120, 120, 120, 120, 120, 120, 120, 120, 120, 120,
     120, 120, 120, 120, 120, 120, 120, 120, 120, 120, 120, 120, 120, 120, 120, 46,
     112, 110, 103]"
  by code_simp

lemma md5_long_url:
  "md5 [104, 116, 116, 112, 115, 58, 47, 47, 102, 114, 97, 109, 101, 114, 117, 115, 101,
     114, 99, 111, 110, 116, 101, 110, 116, 46, 99, 111, 109, 47, 120, 120, 120, 120,
     120, 120, 120, 120, 120, 120, 120, 120, 120, 120, 120, 120, 120, 120, 120, 120,
     120, 120, 120, 120, 120, 120, 120, 120, 120, 120, 120, 120, 120, 120, 120, 120,
     120, 120, 120, 120, 120, 120, 120, 120, 120, 120, 120, 120, 120, 120, 120, 46,
     112, 110, 103] =
    [0x4, 0x95, 0x7d, 0xdf, 0x32, 0x37, 0xa8, 0xf9, 0xac, 0x56, 0x7f, 0xdc, 0x1a, 0xdd,
     0xf5, 0xe2]"
  by code_simp

lemma url_hash_long_url:
  "url_hash ''https://framerusercontent.com/xxxxxxxxxxxxxxxxxxxxxxxxxxxxxxxxxxxxxxxxxxxxxxxxxxx.png'' = ''04957ddf3237''"
  unfolding url_hash_def utf8_long_url md5_long_url by code_simp

subsection \<open>\<open>download_file\<close>: cache, console and disk\<close>

lemma say_fields [simp]:
  "url_to_local_path (say e s) = url_to_local_path s"
  "disk (say e s) = disk s"
  "calls (say e s) = calls s"
  "console (say e s) = console s @ [e]"
  by (simp_all add: say_def)

lemma node_at_put_file:
  "node_at (put_file k c d) p =
     (if resolve p = [] then Some Dir
      else if resolve p = k then Some (File True c) else node_at d p)"
  by (simp add: node_at_def put_file_def update_conv' Let_def)

lemma open_write_Inr: "open_write d p = Inr k \<Longrightarrow> k = resolve p"
  by (auto simp: open_write_def split: option.splits node.splits if_splits)

lemma open_write_absent:
  "node_at d p = None \<Longrightarrow> open_write d p = Inr k \<Longrightarrow> k \<noteq> [] \<and> map_of d k = None"
  by (auto simp: open_write_def node_at_def Let_def split: option.splits node.splits if_splits)

lemma fetch_to_fields:
  "fetch_to env url lp s = (b, s') \<Longrightarrow>
     url_to_local_path s' = url_to_local_path s \<and> console s' = console s \<and> calls s' = calls s"
  by (auto simp: fetch_to_def split: response.splits sum.splits)


lemma fetch_to_True_exists:
  "fetch_to env url lp s = (True, s') \<Longrightarrow> node_at (disk s') lp \<noteq> None"
  by (auto simp: fetch_to_def node_at_put_file dest: open_write_Inr split: response.splits sum.splits)

lemma download_file_hit:
  "url_to_local_path s url = Some p \<Longrightarrow>
     download_file env url s = (Some p, s\<lparr>calls := calls s @ [url]\<rparr>)"
  by (simp add: download_file_def)

lemma download_file_calls:
  "calls (snd (download_file env url s)) = calls s @ [url]"
  by (auto simp: download_file_def Let_def split: option.splits prod.splits bool.splits
           dest: fetch_to_fields)

lemma download_file_Some_cached:
  "download_file env url s = (Some p, s') \<Longrightarrow> url_to_local_path s' url = Some p"
  by (auto simp: download_file_def Let_def split: option.splits prod.splits bool.splits if_splits)


lemma download_file_cache_mono:
  "url_to_local_path s u = Some q \<Longrightarrow> url_to_local_path (snd (download_file env url s)) u = Some q"
  by (auto simp: download_file_def Let_def split: option.splits prod.splits bool.splits if_splits
           dest: fetch_to_fields)


lemma download_file_Some_exists:
  assumes "download_file env url s = (Some p, s')" and "url_to_local_path s url = None"
  shows "path_exists (disk s') p"
  using assms
  by (auto simp: download_file_def Let_def path_exists_def
           split: option.splits prod.splits bool.splits if_splits dest: fetch_to_True_exists)

subsection \<open>The loop of \<open>process_file\<close>\<close>

lemma rewrite_match_excluded:
  "contains ''searchIndex'' (unescape (html5 env) (charref_chr env) m) \<Longrightarrow>
     rewrite_match env f m (s, t) = (s, t)"
  by (simp add: rewrite_match_def)




lemma download_file_console:
  "console (snd (download_file env url s)) = console s
   \<or> (url_to_local_path s url = None \<and>
       (console (snd (download_file env url s)) = console s @ [SkippingExists (local_path_of url)]
        \<or> console (snd (download_file env url s)) = console s @ [Downloading url (local_path_of url)]
        \<or> console (snd (download_file env url s))
            = console s @ [Downloading url (local_path_of url), FailedToDownload url]))"
  by (auto simp: download_file_def local_path_of_def Let_def
           split: option.splits prod.splits bool.splits dest!: fetch_to_fields)

lemma download_file_fetches_other:
  "u \<noteq> url \<Longrightarrow> fetches url (snd (download_file env u s)) = fetches url s"
  using download_file_console [of env u s]
  by (auto simp: fetches_def is_fetch_of_def)

lemma download_file_fetches_hit:
  "url_to_local_path s url = Some p \<Longrightarrow> fetches url (snd (download_file env u s)) = fetches url s"
  using download_file_console [of env u s]
  by (cases "u = url") (auto simp: fetches_def is_fetch_of_def)

lemma download_file_fetches_le:
  "fetches url (snd (download_file env u s)) \<le> Suc (fetches url s)"
  using download_file_console [of env u s]
  by (auto simp: fetches_def is_fetch_of_def)


lemma downloads_cache_mono:
  "url_to_local_path s url = Some p \<Longrightarrow> url_to_local_path (downloads env us s) url = Some p"
  unfolding downloads_def
  by (induction us arbitrary: s) (simp_all add: download_file_cache_mono)

lemma downloads_fetches_hit:
  "url_to_local_path s url = Some p \<Longrightarrow> fetches url (downloads env us s) = fetches url s"
  unfolding downloads_def
proof (induction us arbitrary: s)
  case Nil
  then show ?case by simp
next
  case (Cons u us)
  have "url_to_local_path (snd (download_file env u s)) url = Some p"
    using Cons.prems by (rule download_file_cache_mono)
  then show ?case
    using Cons.IH [of "snd (download_file env u s)"] download_file_fetches_hit [OF Cons.prems, of env u]
    by simp
qed

lemma download_file_marker_free:
  assumes "marker_free s" and "\<not> contains ''searchIndex'' url"
  shows "marker_free (snd (download_file env url s))"
  using assms download_file_console [of env url s] download_file_calls [of env url s]
  by (auto simp: marker_free_def marker_free_event_def)

lemma rewrite_match_marker_free:
  assumes "marker_free s"
  shows "marker_free (fst (rewrite_match env f m (s, t)))"
proof -
  have "marker_free s'" if "download_file env u s = (r, s')" and "\<not> contains ''searchIndex'' u" for u r s'
    using download_file_marker_free [OF assms that(2), of env] that(1) by simp
  then show ?thesis using assms
    by (auto simp: rewrite_match_def Let_def marker_free_def marker_free_event_def
             split: prod.splits option.splits)
qed

lemma fold_rewrite_match_marker_free:
  "marker_free s \<Longrightarrow> marker_free (fst (fold (rewrite_match env f) ms (s, t)))"
proof (induction ms arbitrary: s t)
  case Nil
  then show ?case by simp
next
  case (Cons m ms)
  obtain s1 t1 where st: "rewrite_match env f m (s, t) = (s1, t1)"
    by (cases "rewrite_match env f m (s, t)")
  have "marker_free s1"
    using rewrite_match_marker_free [OF Cons.prems, of env f m t] st by simp
  then show ?case using Cons.IH st by simp
qed

lemma marker_free_say:
  "marker_free s \<Longrightarrow> marker_free_event e \<Longrightarrow> marker_free (say e s)"
  by (simp add: marker_free_def)

lemma marker_free_disk_update:
  "marker_free (s\<lparr>disk := d\<rparr>) = marker_free s"
  by (simp add: marker_free_def)

subsection \<open>\<open>process_file\<close> by cases\<close>

lemma process_file_cases:
  obtains
    (error) e where "open_read (disk s) f = Inl e"
      and "process_file env f s = (Some e, say (Processing f) s)"
  | (undecodable) "open_read (disk s) f = Inr Undecodable"
      and "process_file env f s = (None, say (WarningNotUTF8 f) (say (Processing f) s))"
  | (unchanged) content s2 where "open_read (disk s) f = Inr (Text content)"
      and "fold (rewrite_match env f) (sorted_by_len_desc (py_set env (findall content)))
             (say (FoundMatches (length (py_set env (findall content))) f) (say (Processing f) s), content)
           = (s2, content)"
      and "process_file env f s = (None, say (NoChanges f) s2)"
  | (write_error) content s2 nc e where "open_read (disk s) f = Inr (Text content)"
      and "fold (rewrite_match env f) (sorted_by_len_desc (py_set env (findall content)))
             (say (FoundMatches (length (py_set env (findall content))) f) (say (Processing f) s), content)
           = (s2, nc)"
      and "nc \<noteq> content" and "open_write (disk s2) f = Inl e"
      and "process_file env f s = (Some e, s2)"
  | (updated) content s2 nc where "open_read (disk s) f = Inr (Text content)"
      and "fold (rewrite_match env f) (sorted_by_len_desc (py_set env (findall content)))
             (say (FoundMatches (length (py_set env (findall content))) f) (say (Processing f) s), content)
           = (s2, nc)"
      and "nc \<noteq> content" and "open_write (disk s2) f = Inr (resolve f)"
      and "process_file env f s
           = (None, say (Updated f) (s2\<lparr>disk := put_file (resolve f) (Text nc) (disk s2)\<rparr>))"
proof (cases "open_read (disk s) f")
  case (Inl e)
  then show ?thesis using error by (simp add: process_file_def Let_def)
next
  case (Inr c)
  show ?thesis
  proof (cases c)
    case Undecodable
    then show ?thesis using Inr undecodable by (simp add: process_file_def Let_def)
  next
    case (Text content)
    obtain s2 nc where fo:
      "fold (rewrite_match env f) (sorted_by_len_desc (py_set env (findall content)))
         (say (FoundMatches (length (py_set env (findall content))) f) (say (Processing f) s), content)
       = (s2, nc)"
      by (cases "fold (rewrite_match env f) (sorted_by_len_desc (py_set env (findall content)))
         (say (FoundMatches (length (py_set env (findall content))) f) (say (Processing f) s), content)")
    show ?thesis
    proof (cases "nc = content")
      case True
      then show ?thesis using Inr Text fo unchanged [of content s2]
        by (simp add: process_file_def Let_def)
    next
      case False
      show ?thesis
      proof (cases "open_write (disk s2) f")
        case (Inl e)
        then show ?thesis using Inr Text fo False write_error [of content s2 nc e]
          by (simp add: process_file_def Let_def)
      next
        case (Inr k)
        then have "k = resolve f" by (rule open_write_Inr)
        then show ?thesis using \<open>open_read (disk s) f = Inr c\<close> Inr Text fo False updated [of content s2 nc]
          by (simp add: process_file_def Let_def)
      qed
    qed
  qed
qed

lemma process_file_marker_free:
  assumes "marker_free s"
  shows "marker_free (snd (process_file env f s))"
proof -
  have m: "marker_free s2"
    if "fold (rewrite_match env f) ms (say (FoundMatches k f) (say (Processing f) s), c) = (s2, nc)"
    for ms k c s2 nc
    using fold_rewrite_match_marker_free
            [of "say (FoundMatches k f) (say (Processing f) s)" env f ms c] that assms
    by (simp add: marker_free_say marker_free_event_def)
  show ?thesis
    by (cases rule: process_file_cases [of s f env])
       (use assms m in \<open>auto simp: marker_free_say marker_free_event_def marker_free_disk_update\<close>)
qed






subsection \<open>Documents that stay ready\<close>













lemma process_files_marker_free:
  "marker_free s \<Longrightarrow> marker_free (snd (process_files env fs s))"
proof (induction fs arbitrary: s)
  case Nil
  then show ?case by simp
next
  case (Cons f fs)
  obtain r s1 where p: "process_file env f s = (r, s1)" by (cases "process_file env f s")
  have "marker_free s1" using process_file_marker_free [OF Cons.prems, of env f] p by simp
  then show ?case using Cons.IH [of s1] p by (cases r) auto
qed



subsection \<open>\<open>main\<close> and \<open>run\<close>\<close>




lemma main_marker_free:
  "marker_free s \<Longrightarrow> marker_free (snd (main env s))"
  using process_files_marker_free [of s env "rglob_html (disk s)"]
  by (auto simp: main_def Let_def marker_free_say marker_free_event_def split: prod.splits option.splits)








subsection \<open>No match means no occurrence of the pattern\<close>

lemma startswith_iff: "startswith s p \<longleftrightarrow> (\<exists>r. s = p @ r)"
  by (induction s p rule: startswith.induct) auto

lemma findall_empty_iff:
  "findall t = [] \<longleftrightarrow> \<not> (\<exists>pre c rest. t = pre @ url_prefix @ c # rest \<and> url_char c)"
proof (induction t)
  case Nil
  then show ?case by simp
next
  case (Cons a t)
  have head: "(startswith (a # t) url_prefix \<and> takeWhile url_char (drop (length url_prefix) (a # t)) \<noteq> [])
              \<longleftrightarrow> (\<exists>c rest. a # t = url_prefix @ c # rest \<and> url_char c)"
  proof
    assume l: "startswith (a # t) url_prefix \<and> takeWhile url_char (drop (length url_prefix) (a # t)) \<noteq> []"
    then obtain r where r: "a # t = url_prefix @ r" by (auto simp: startswith_iff)
    then have "takeWhile url_char r \<noteq> []" using l by simp
    then obtain c rest where "r = c # rest" "url_char c"
      by (cases r) (auto split: if_splits)
    then show "\<exists>c rest. a # t = url_prefix @ c # rest \<and> url_char c" using r by auto
  next
    assume "\<exists>c rest. a # t = url_prefix @ c # rest \<and> url_char c"
    then obtain c rest where e: "a # t = url_prefix @ c # rest" and c: "url_char c" by blast
    have "startswith (a # t) url_prefix" using e by (auto simp: startswith_iff)
    moreover have "takeWhile url_char (drop (length url_prefix) (a # t)) \<noteq> []"
      using c by (simp add: e)
    ultimately show "startswith (a # t) url_prefix \<and> takeWhile url_char (drop (length url_prefix) (a # t)) \<noteq> []"
      by simp
  qed
  have split: "(\<exists>pre c rest. a # t = pre @ url_prefix @ c # rest \<and> url_char c)
               \<longleftrightarrow> (\<exists>c rest. a # t = url_prefix @ c # rest \<and> url_char c)
                    \<or> (\<exists>pre c rest. t = pre @ url_prefix @ c # rest \<and> url_char c)"
  proof
    assume "\<exists>pre c rest. a # t = pre @ url_prefix @ c # rest \<and> url_char c"
    then obtain pre c rest where e: "a # t = pre @ url_prefix @ c # rest" and c: "url_char c" by blast
    show "(\<exists>c rest. a # t = url_prefix @ c # rest \<and> url_char c)
          \<or> (\<exists>pre c rest. t = pre @ url_prefix @ c # rest \<and> url_char c)"
    proof (cases pre)
      case Nil
      then show ?thesis using e c by auto
    next
      case (Cons b pre')
      then have "t = pre' @ url_prefix @ c # rest" using e by simp
      then show ?thesis using c by blast
    qed
  next
    assume "(\<exists>c rest. a # t = url_prefix @ c # rest \<and> url_char c)
            \<or> (\<exists>pre c rest. t = pre @ url_prefix @ c # rest \<and> url_char c)"
    then show "\<exists>pre c rest. a # t = pre @ url_prefix @ c # rest \<and> url_char c"
    proof
      assume "\<exists>c rest. a # t = url_prefix @ c # rest \<and> url_char c"
      then obtain c rest where "a # t = [] @ url_prefix @ c # rest \<and> url_char c" by auto
      then show ?thesis by blast
    next
      assume "\<exists>pre c rest. t = pre @ url_prefix @ c # rest \<and> url_char c"
      then obtain pre c rest where "a # t = (a # pre) @ url_prefix @ c # rest \<and> url_char c" by auto
      then show ?thesis by blast
    qed
  qed
  show ?case
    unfolding split using head Cons.IH
    by (auto simp: Let_def simp del: startswith.simps)
qed

subsection \<open>A request that fails again\<close>


subsection \<open>Where a stored asset lies\<close>

lemma local_filename_nonempty: "local_filename url \<noteq> []"
proof -
  have "url_hash url \<noteq> []" using length_url_hash [of url] by auto
  then show ?thesis by (auto simp: local_filename_def Let_def)
qed

lemma get_target_dir_cases:
  "get_target_dir ext = IMAGES_DIR \<or> get_target_dir ext = FONTS_DIR \<or> get_target_dir ext = OTHERS_DIR"
  by (simp add: get_target_dir_def)

lemma download_file_under_asset_dir:
  assumes "url_to_local_path s url = None" and "fst (download_file env url s) = Some p"
    and "local_filename url \<noteq> ''.''"
  shows "p = get_target_dir (get_extension url) @ [local_filename url]
         \<and> path_exists (disk (snd (download_file env url s))) p"
proof -
  have "p = joinpath (get_target_dir (get_extension url)) (local_filename url)"
    using assms(1,2)
    by (auto simp: download_file_def Let_def split: option.splits prod.splits bool.splits if_splits)
  then have "p = get_target_dir (get_extension url) @ [local_filename url]"
    using assms(3) local_filename_nonempty [of url] by (simp add: joinpath_def)
  moreover have "path_exists (disk (snd (download_file env url s))) p"
    using download_file_Some_exists [of env url s p "snd (download_file env url s)"] assms(1,2)
    by (simp add: prod_eq_iff)
  ultimately show ?thesis by simp
qed

section \<open>The claims\<close>

subsection \<open>C1: the matched string is replaced by the relative path\<close>

text \<open>
  Claim C1 says that for every extracted URL whose materialization succeeds, every
  occurrence of the matched string, as it stands in the document before unescaping, is
  replaced by the path of the asset relative to the directory of the document. Line 116
  overwrites the loop variable with its unescaped form, and line 141 searches the text
  for that form. The document \<open>index.html\<close> of \<open>escaped_disk\<close> holds one reference with
  \<open>&amp;\<close> in it: the pattern finds it, \<open>download_file\<close> is called with the unescaped URL and
  stores the asset as \<open>assets/images/ab.png\<close>, and the text of the document is what it was.
\<close>

theorem C1_escaped_url_not_rewritten:
  "findall escaped_text = [''https://framerusercontent.com/a&amp;b.png'']
   \<and> fst (process_file online_env [''index.html''] (initial_state escaped_disk)) = None
   \<and> calls (snd (process_file online_env [''index.html''] (initial_state escaped_disk)))
       = [''https://framerusercontent.com/a&b.png'']
   \<and> url_to_local_path (snd (process_file online_env [''index.html''] (initial_state escaped_disk)))
        ''https://framerusercontent.com/a&b.png'' = Some [''assets'', ''images'', ''ab.png'']
   \<and> open_read (disk (snd (process_file online_env [''index.html''] (initial_state escaped_disk))))
        [''index.html''] = Inr (Text escaped_text)"
  by code_simp

subsection \<open>C2: a failure is cached\<close>




subsection \<open>C3: a second run changes nothing\<close>




subsection \<open>C4: no failure aborts the run\<close>




subsection \<open>C5: two calls for one URL\<close>

text \<open>
  Claim C5, as the code has it: a call of \<open>download_file\<close> that succeeds makes at most
  one request, and after it, whatever other calls come between, a call for the same URL
  returns the same path and changes nothing but the record of calls; no further request
  for that URL is made.
\<close>

theorem C5_success_is_cached:
  assumes "fst (download_file env url s) = Some p"
  shows "fetches url (snd (download_file env url s)) \<le> Suc (fetches url s)
         \<and> download_file env url (downloads env us (snd (download_file env url s)))
             = (Some p, (downloads env us (snd (download_file env url s)))
                          \<lparr>calls := calls (downloads env us (snd (download_file env url s))) @ [url]\<rparr>)
         \<and> fetches url (downloads env us (snd (download_file env url s)))
             = fetches url (snd (download_file env url s))"
proof -
  define s1 where "s1 = snd (download_file env url s)"
  have "download_file env url s = (Some p, s1)"
    using assms by (simp add: s1_def prod_eq_iff)
  then have c: "url_to_local_path s1 url = Some p"
    by (rule download_file_Some_cached)
  then have "url_to_local_path (downloads env us s1) url = Some p"
    by (rule downloads_cache_mono)
  then have "download_file env url (downloads env us s1)
             = (Some p, (downloads env us s1)\<lparr>calls := calls (downloads env us s1) @ [url]\<rparr>)"
    by (rule download_file_hit)
  moreover have "fetches url (downloads env us s1) = fetches url s1"
    using c by (rule downloads_fetches_hit)
  moreover have "fetches url s1 \<le> Suc (fetches url s)"
    unfolding s1_def by (rule download_file_fetches_le)
  ultimately show ?thesis unfolding s1_def by simp
qed

text \<open>
  Claim C5, at a URL that is fetched once: after calls for another URL and for the same
  one, the call returns the same path and one request has been made.
\<close>

theorem C5_success_is_cached_witness:
  "fst (download_file online_env ''https://framerusercontent.com/a.png'' (initial_state asset_dirs))
     = Some [''assets'', ''images'', ''a.png'']
   \<and> fst (download_file online_env ''https://framerusercontent.com/a.png''
            (downloads online_env [''https://framerusercontent.com/b.png'', ''https://framerusercontent.com/a.png'']
               (snd (download_file online_env ''https://framerusercontent.com/a.png''
                      (initial_state asset_dirs)))))
     = Some [''assets'', ''images'', ''a.png'']
   \<and> fetches ''https://framerusercontent.com/a.png''
        (downloads online_env [''https://framerusercontent.com/b.png'', ''https://framerusercontent.com/a.png'']
           (snd (download_file online_env ''https://framerusercontent.com/a.png''
                  (initial_state asset_dirs)))) = 1"
proof -
  have h: "fst (download_file online_env ''https://framerusercontent.com/a.png''
             (initial_state asset_dirs)) = Some [''assets'', ''images'', ''a.png'']"
    by code_simp
  have o: "fetches ''https://framerusercontent.com/a.png''
             (snd (download_file online_env ''https://framerusercontent.com/a.png''
                    (initial_state asset_dirs))) = 1"
    by code_simp
  from C5_success_is_cached [OF h,
         of "[''https://framerusercontent.com/b.png'', ''https://framerusercontent.com/a.png'']"] h o
  show ?thesis by simp
qed

text \<open>
  Claim C5 as stated says that two calls return the same result and make at most one
  request. Where the body is lost while it is read, the first call fails and leaves the
  empty file that line 77 created, and the second call finds that file and returns its
  path. Where the request is refused, two calls make two requests.
\<close>

theorem C5_twice_counterexample:
  "fst (download_file truncating_env ''https://framerusercontent.com/a.png'' (initial_state asset_dirs))
     = None
   \<and> fst (download_file truncating_env ''https://framerusercontent.com/a.png''
            (snd (download_file truncating_env ''https://framerusercontent.com/a.png''
                   (initial_state asset_dirs))))
     = Some [''assets'', ''images'', ''a.png'']
   \<and> fetches ''https://framerusercontent.com/b.png''
        (snd (download_file offline_env ''https://framerusercontent.com/b.png''
               (snd (download_file offline_env ''https://framerusercontent.com/b.png''
                      (initial_state asset_dirs))))) = 2"
  by code_simp

subsection \<open>C6: the local file name\<close>

text \<open>
  Claim C6: the file name that \<open>download_file\<close> computes is the one the specification
  describes, the identifier in it has exactly 12 lower-case hexadecimal digits, and a call
  that finds nothing cached and succeeds returns the directory of the extension joined
  with that name.
\<close>

theorem C6_local_filename:
  "local_filename url = spec_filename url
   \<and> length (url_hash url) = 12
   \<and> list_all is_lower_hex (url_hash url)
   \<and> (url_to_local_path s url = None \<longrightarrow> fst (download_file env url s) = Some p \<longrightarrow>
        p = joinpath (get_target_dir (get_extension url)) (spec_filename url))"
proof -
  have "p = joinpath (get_target_dir (get_extension url)) (local_filename url)"
    if "url_to_local_path s url = None" and "fst (download_file env url s) = Some p"
    using that
    by (auto simp: download_file_def Let_def split: option.splits prod.splits bool.splits if_splits)
  then show ?thesis
    by (simp add: local_filename_spec length_url_hash url_hash_lower)
qed

text \<open>
  Claim C6, at the URL of an image with a query: the name is the basename, and the image
  is stored under \<open>assets/images\<close>; at a URL with an empty basename and at one with a
  basename of 55 characters the name is the identifier, followed by the extension.
\<close>

theorem C6_local_filename_witness:
  "local_filename ''https://framerusercontent.com/images/abc123.png?v=2'' = ''abc123.png''
   \<and> spec_filename ''https://framerusercontent.com/a/'' = ''5328de450553''
   \<and> spec_filename
        ''https://framerusercontent.com/xxxxxxxxxxxxxxxxxxxxxxxxxxxxxxxxxxxxxxxxxxxxxxxxxxx.png''
       = ''04957ddf3237.png''
   \<and> fst (download_file online_env ''https://framerusercontent.com/images/abc123.png?v=2''
            (initial_state asset_dirs)) = Some [''assets'', ''images'', ''abc123.png'']"
proof -
  have n: "url_to_local_path (initial_state asset_dirs)
             ''https://framerusercontent.com/images/abc123.png?v=2'' = None"
    by (simp add: initial_state_def)
  have h: "fst (download_file online_env ''https://framerusercontent.com/images/abc123.png?v=2''
            (initial_state asset_dirs)) = Some [''assets'', ''images'', ''abc123.png'']"
    by code_simp
  have e: "spec_filename ''https://framerusercontent.com/images/abc123.png?v=2'' = ''abc123.png''"
    by code_simp
  have a: "spec_filename ''https://framerusercontent.com/a/'' = ''5328de450553''"
    unfolding spec_filename_def url_hash_short_url by code_simp
  have b: "spec_filename
             ''https://framerusercontent.com/xxxxxxxxxxxxxxxxxxxxxxxxxxxxxxxxxxxxxxxxxxxxxxxxxxx.png''
           = ''04957ddf3237.png''"
    unfolding spec_filename_def url_hash_long_url by code_simp
  from C6_local_filename [of "''https://framerusercontent.com/images/abc123.png?v=2''"
         "initial_state asset_dirs" online_env "[''assets'', ''images'', ''abc123.png'']"] n h e a b
  show ?thesis by simp
qed

subsection \<open>C7: excluded URLs\<close>

text \<open>
  Claim C7, as the code has it: line 120 tests the unescaped form of the match. A match
  whose unescaped form contains \<open>searchIndex\<close> leaves the state and the text as they are:
  \<open>download_file\<close> is not called, nothing is fetched, and no replacement is made for it.
  Over a whole run no call of \<open>download_file\<close> and no request is for a URL that contains
  the marker.
\<close>

theorem C7_excluded_never_materialized:
  "(contains ''searchIndex'' (unescape (html5 env) (charref_chr env) m) \<longrightarrow>
      rewrite_match env f m (s, t) = (s, t))
   \<and> marker_free (snd (run env d))"
proof -
  have i: "marker_free (initial_state d')" for d'
    by (simp add: marker_free_def initial_state_def)
  have "marker_free (snd (run env d))"
    using i main_marker_free [of "initial_state d'" env for d']
    by (auto simp: run_def split: sum.splits)
  then show ?thesis by (simp add: rewrite_match_excluded)
qed

text \<open>
  Claim C7, at a document with a search-index URL and a second URL: the step for the
  first does nothing, and the run calls \<open>download_file\<close> for the second only.
\<close>

theorem C7_excluded_never_materialized_witness:
  "contains ''searchIndex''
     (unescape (html5 online_env) (charref_chr online_env) ''https://framerusercontent.com/a/searchIndex.json'')
   \<and> rewrite_match online_env [''index.html''] ''https://framerusercontent.com/a/searchIndex.json''
        (initial_state clobber_disk, clobber_text) = (initial_state clobber_disk, clobber_text)
   \<and> marker_free (snd (run online_env clobber_disk))
   \<and> calls (snd (run online_env clobber_disk)) = [''https://framerusercontent.com/a'']"
proof -
  have h: "contains ''searchIndex''
     (unescape (html5 online_env) (charref_chr online_env) ''https://framerusercontent.com/a/searchIndex.json'')"
    by code_simp
  have c: "calls (snd (run online_env clobber_disk)) = [''https://framerusercontent.com/a'']"
    by code_simp
  from C7_excluded_never_materialized [of online_env "''https://framerusercontent.com/a/searchIndex.json''"
         "[''index.html'']" "initial_state clobber_disk" clobber_text clobber_disk] h c
  show ?thesis by simp
qed

text \<open>
  Claim C7 as stated says that all occurrences of an excluded URL stay unmodified. In
  \<open>clobber_text\<close> a second match is a prefix of the excluded one; the excluded match is
  skipped, the shorter one is replaced everywhere, also inside the excluded URL, which
  is no longer in the document. In \<open>entity_text\<close> the matched string contains the marker,
  its unescaped form does not (\<open>&times\<close> takes the \<open>s\<close>), and \<open>download_file\<close> is called
  with it and fetches it.
\<close>

theorem C7_excluded_url_clobbered_counterexample:
  "''https://framerusercontent.com/a/searchIndex.json'' \<in> set (findall clobber_text)
   \<and> open_read (disk (snd (process_file online_env [''index.html''] (initial_state clobber_disk))))
        [''index.html'']
      = Inr (Text ''assets/others/a assets/others/a/searchIndex.json'')
   \<and> \<not> contains ''https://framerusercontent.com/a/searchIndex.json''
          ''assets/others/a assets/others/a/searchIndex.json''
   \<and> findall entity_text = [''https://framerusercontent.com/&timesearchIndex.png'']
   \<and> contains ''searchIndex'' ''https://framerusercontent.com/&timesearchIndex.png''
   \<and> calls (snd (process_file entity_env [''index.html''] (initial_state entity_disk)))
       = [''https://framerusercontent.com/'' @ [CHR 0xD7] @ ''earchIndex.png'']
   \<and> fetches (''https://framerusercontent.com/'' @ [CHR 0xD7] @ ''earchIndex.png'')
        (snd (process_file entity_env [''index.html''] (initial_state entity_disk))) = 1"
  by code_simp

subsection \<open>C8: a document without matches is not written\<close>

text \<open>
  Claim C8: when the text of a document has no match of the pattern, \<open>process_file\<close>
  prints its three lines and changes nothing else: the disk is the one before. (By
  \<open>findall_empty_iff\<close>, no match means that the pattern occurs nowhere in the text.)
\<close>

theorem C8_no_match_no_write:
  assumes "open_read (disk s) f = Inr (Text content)" and "findall content = []"
  shows "process_file env f s
           = (None, say (NoChanges f) (say (FoundMatches 0 f) (say (Processing f) s)))
         \<and> disk (snd (process_file env f s)) = disk s"
  using assms
  by (simp add: process_file_def Let_def py_set_def sorted_by_len_desc_def)

text \<open>
  Claim C8, at a read-only document whose links are local already.
\<close>

theorem C8_no_match_no_write_witness:
  "open_read (disk (initial_state plain_disk)) [''about.html'']
     = Inr (Text ''<p>assets/images/x.png</p>'')
   \<and> findall ''<p>assets/images/x.png</p>'' = []
   \<and> disk (snd (process_file offline_env [''about.html''] (initial_state plain_disk))) = plain_disk"
proof -
  have r: "open_read (disk (initial_state plain_disk)) [''about.html'']
             = Inr (Text ''<p>assets/images/x.png</p>'')"
    by code_simp
  have f: "findall ''<p>assets/images/x.png</p>'' = []"
    by code_simp
  from C8_no_match_no_write [OF r f, of offline_env] r f
  show ?thesis by (simp add: initial_state_def)
qed

subsection \<open>C9: where a stored asset lies\<close>

text \<open>
  Claim C9 says that a path returned by \<open>download_file\<close> lies under exactly one of the
  three asset directories and that a file exists there. The class of line 48 keeps dots,
  so the names \<open>.\<close> and \<open>..\<close> pass as file names. For the URL that ends in \<open>/.\<close> the path
  is the directory \<open>assets/others\<close> itself, found to exist, with nothing fetched; for the
  URL that ends in \<open>/..\<close> the path resolves to \<open>assets\<close>. (For every other name,
  \<open>download_file_under_asset_dir\<close> gives what the claim says, and
  \<open>download_file_cache_mono\<close> that a cached entry stays.)
\<close>

theorem C9_dot_url_returns_directory:
  "fst (download_file online_env ''https://framerusercontent.com/.'' (initial_state asset_dirs))
     = Some [''assets'', ''others'']
   \<and> node_at (disk (snd (download_file online_env ''https://framerusercontent.com/.''
                           (initial_state asset_dirs)))) [''assets'', ''others''] = Some Dir
   \<and> fst (download_file online_env ''https://framerusercontent.com/..'' (initial_state asset_dirs))
     = Some [''assets'', ''others'', ''..'']
   \<and> resolve [''assets'', ''others'', ''..''] = [''assets'']"
  by code_simp

subsection \<open>C10: the identifier\<close>

text \<open>
  Claim C10: the identifier is the first 12 characters of the hexadecimal MD5 digest of
  the UTF-8 encoding of the URL, and it always has exactly 12 characters, each a
  lower-case hexadecimal digit. \<open>url_hash\<close> takes the URL and nothing else: no disk, no
  network and no state enter it.
\<close>

theorem C10_url_hash:
  "url_hash url = take 12 (hexdigest (md5 (utf8 url)))
   \<and> length (url_hash url) = 12
   \<and> list_all is_lower_hex (url_hash url)"
  by (simp add: length_url_hash url_hash_lower) (simp add: url_hash_def)

text \<open>
  Claim C10, at a URL whose path has an empty basename.
\<close>

theorem C10_url_hash_witness:
  "url_hash ''https://framerusercontent.com/a/'' = ''5328de450553''
   \<and> take 12 (hexdigest (md5 (utf8 ''https://framerusercontent.com/a/''))) = ''5328de450553''
   \<and> length (url_hash ''https://framerusercontent.com/a/'') = 12
   \<and> list_all is_lower_hex (url_hash ''https://framerusercontent.com/a/'')"
proof -
  from C10_url_hash [of "''https://framerusercontent.com/a/''"]
  have a: "url_hash ''https://framerusercontent.com/a/''
             = take 12 (hexdigest (md5 (utf8 ''https://framerusercontent.com/a/'')))"
    and b: "length (url_hash ''https://framerusercontent.com/a/'') = 12"
    and c: "list_all is_lower_hex (url_hash ''https://framerusercontent.com/a/'')"
    by blast+
  show ?thesis
  proof (intro conjI)
    show "url_hash ''https://framerusercontent.com/a/'' = ''5328de450553''"
      by (rule url_hash_short_url)
    show "take 12 (hexdigest (md5 (utf8 ''https://framerusercontent.com/a/''))) = ''5328de450553''"
      using a [symmetric] url_hash_short_url by (rule trans)
    show "length (url_hash ''https://framerusercontent.com/a/'') = 12" by (rule b)
    show "list_all is_lower_hex (url_hash ''https://framerusercontent.com/a/'')" by (rule c)
  qed
qed

end
